theory Spec2Isabelle
  imports Main
begin

section \<open>String operations of the route matcher\<close>

text \<open>
  Paths and route patterns are JavaScript strings, modelled as \<open>string\<close>.
  The matcher uses three string methods: \<open>startsWith\<close>, \<open>includes\<close> and
  \<open>replace\<close> with a string pattern (which replaces the first occurrence only).
\<close>

fun startsWith :: "string \<Rightarrow> string \<Rightarrow> bool" where
  "startsWith s [] = True"
| "startsWith [] (p # ps) = False"
| "startsWith (c # cs) (p # ps) = (c = p \<and> startsWith cs ps)"

fun js_includes :: "string \<Rightarrow> string \<Rightarrow> bool" where
  "js_includes [] sub = (sub = [])"
| "js_includes (c # cs) sub = (startsWith (c # cs) sub \<or> js_includes cs sub)"

fun js_replace :: "string \<Rightarrow> string \<Rightarrow> string \<Rightarrow> string" where
  "js_replace [] pat rep = (if pat = [] then rep else [])"
| "js_replace (c # cs) pat rep =
     (if startsWith (c # cs) pat then rep @ drop (length pat) (c # cs)
      else c # js_replace cs pat rep)"

section \<open>createRouteMatcher\<close>

text \<open>
  The callback handed to \<open>routes.some\<close>: literal equality first, then, for a route
  that contains the marker \<open>(.*)\<close>, the base route (the marker removed) matches itself
  and everything below it.
\<close>

definition routeMatches :: "string \<Rightarrow> string \<Rightarrow> bool" where
  "routeMatches pathname route =
     (if route = pathname then True
      else if js_includes route ''(.*)'' then
        (let baseRoute = js_replace route ''(.*)'' ''''
         in pathname = baseRoute \<or> startsWith pathname (baseRoute @ ''/''))
      else False)"

text \<open>
  A matcher reads only \<open>request.nextUrl.pathname\<close>, so the model applies it to that
  string. \<open>Array.prototype.some\<close> is \<open>list_ex\<close>.
\<close>

definition createRouteMatcher :: "string list \<Rightarrow> string \<Rightarrow> bool" where
  "createRouteMatcher routes pathname = list_ex (routeMatches pathname) routes"

definition isPublicRoute :: "string \<Rightarrow> bool" where
  "isPublicRoute = createRouteMatcher
     [''/'', ''/home'', ''/sign-in(.*)'', ''/sign-up(.*)'', ''/privacy'', ''/terms'',
      ''/robots.txt'', ''/sitemap.xml'', ''/favicon.ico'', ''/favicon.svg'',
      ''/favicon-96x96.png'', ''/apple-touch-icon.png'', ''/opengraph-image.png'']"

definition isOnboardingRoute :: "string \<Rightarrow> bool" where
  "isOnboardingRoute = createRouteMatcher [''/onboarding'']"

definition isRootRoute :: "string \<Rightarrow> bool" where
  "isRootRoute = createRouteMatcher [''/'']"

definition isProtectedRoute :: "string \<Rightarrow> bool" where
  "isProtectedRoute = createRouteMatcher [''/org(.*)'', ''/settings(.*)'']"

definition isApiRoute :: "string \<Rightarrow> bool" where
  "isApiRoute = createRouteMatcher [''/api(.*)'']"

definition isSignInVerifyRoute :: "string \<Rightarrow> bool" where
  "isSignInVerifyRoute = createRouteMatcher
     [''/sign-in/verify'', ''/sign-up/verify-email-address'']"

definition isAuthRoute :: "string \<Rightarrow> bool" where
  "isAuthRoute = createRouteMatcher [''/sign-in(.*)'', ''/sign-up(.*)'']"

section \<open>The URL constructor\<close>

text \<open>
  Every redirect of \<open>proxy\<close> is built by \<open>new URL(input, req.url)\<close> from an input that
  is an absolute path. The URL parser is modelled on such inputs, as far as it decides
  the path, the query and the fragment of the result; scheme, host and port are those of
  the request and are not represented. Strings stand for their UTF-8 bytes, so that
  percent-encoding works byte by byte.
\<close>

definition char_code :: "char \<Rightarrow> nat" where
  "char_code c = of_char c"

definition hex_digit :: "nat \<Rightarrow> char" where
  "hex_digit n = ''0123456789ABCDEF'' ! (n mod 16)"

definition percent_encode_byte :: "char \<Rightarrow> string" where
  "percent_encode_byte c =
     [CHR ''%'', hex_digit (char_code c div 16), hex_digit (char_code c mod 16)]"

text \<open>
  The percent-encode sets of the URL parser. \<open>CHR 0x22\<close> is the double quote,
  \<open>CHR 0x27\<close> the single quote, \<open>CHR 0x60\<close> the backtick and \<open>CHR 0x5C\<close> the
  backslash.
\<close>

definition c0_control_set :: "char \<Rightarrow> bool" where
  "c0_control_set c = (char_code c \<le> 31 \<or> 126 < char_code c)"

definition fragment_set :: "char \<Rightarrow> bool" where
  "fragment_set c =
     (c0_control_set c \<or> c = CHR '' '' \<or> c = CHR 0x22 \<or> c = CHR ''<'' \<or> c = CHR ''>'' \<or>
      c = CHR 0x60)"

definition query_set :: "char \<Rightarrow> bool" where
  "query_set c =
     (c0_control_set c \<or> c = CHR '' '' \<or> c = CHR 0x22 \<or> c = CHR ''#'' \<or> c = CHR ''<'' \<or>
      c = CHR ''>'')"

definition special_query_set :: "char \<Rightarrow> bool" where
  "special_query_set c = (query_set c \<or> c = CHR 0x27)"

definition path_set :: "char \<Rightarrow> bool" where
  "path_set c =
     (query_set c \<or> c = CHR ''?'' \<or> c = CHR ''^'' \<or> c = CHR 0x60 \<or> c = CHR ''{'' \<or>
      c = CHR ''}'')"

definition percent_encode :: "(char \<Rightarrow> bool) \<Rightarrow> string \<Rightarrow> string" where
  "percent_encode encode_set s =
     concat (map (\<lambda>c. if encode_set c then percent_encode_byte c else [c]) s)"

text \<open>
  The serializer of \<open>URLSearchParams\<close>: everything but ASCII letters, digits and
  \<open>* - . _\<close> is percent-encoded, a space becomes \<open>+\<close>.
\<close>

definition ascii_alphanumeric :: "char \<Rightarrow> bool" where
  "ascii_alphanumeric c =
     (48 \<le> char_code c \<and> char_code c \<le> 57 \<or> 65 \<le> char_code c \<and> char_code c \<le> 90 \<or>
      97 \<le> char_code c \<and> char_code c \<le> 122)"

definition urlencoded_byte :: "char \<Rightarrow> string" where
  "urlencoded_byte c =
     (if ascii_alphanumeric c \<or> c = CHR ''*'' \<or> c = CHR ''-'' \<or> c = CHR ''.'' \<or> c = CHR ''_''
        then [c]
      else if c = CHR '' '' then ''+''
      else percent_encode_byte c)"

definition urlencoded :: "string \<Rightarrow> string" where
  "urlencoded s = concat (map urlencoded_byte s)"

text \<open>
  The parts of a parsed URL that the redirects differ in. \<open>url_pathname\<close> is the
  \<open>pathname\<close> getter: every segment of the path preceded by a slash.
\<close>

record url =
  url_path :: "string list"
  url_query :: "string option"
  url_fragment :: "string option"

definition url_pathname :: "url \<Rightarrow> string" where
  "url_pathname u = concat (map (\<lambda>segment. ''/'' @ segment) (url_path u))"

text \<open>
  The path state of the parser. A segment ends at a slash, a backslash, \<open>?\<close>, \<open>#\<close> or
  the end of the input: a double-dot segment removes the last segment of the path, a
  single-dot segment is dropped, every other segment is appended.
\<close>

definition single_dot :: "string \<Rightarrow> bool" where
  "single_dot buffer = (buffer \<in> set [''.'', ''%2e'', ''%2E''])"

definition double_dot :: "string \<Rightarrow> bool" where
  "double_dot buffer =
     (buffer \<in> set [''..'', ''.%2e'', ''.%2E'', ''%2e.'', ''%2E.'',
                     ''%2e%2e'', ''%2e%2E'', ''%2E%2e'', ''%2E%2E''])"

definition end_segment :: "string \<Rightarrow> bool \<Rightarrow> string list \<Rightarrow> string list" where
  "end_segment buffer at_slash path =
     (if double_dot buffer then
        (if at_slash then butlast path else butlast path @ [''''])
      else if single_dot buffer then
        (if at_slash then path else path @ [''''])
      else path @ [buffer])"

text \<open>
  The query state reads up to \<open>#\<close> or the end of the input, the fragment state reads
  the rest.
\<close>

definition query_state :: "string list \<Rightarrow> string \<Rightarrow> url" where
  "query_state path rest =
     \<lparr>url_path = path,
      url_query = Some (percent_encode special_query_set (takeWhile (\<lambda>c. c \<noteq> CHR ''#'') rest)),
      url_fragment =
        (case dropWhile (\<lambda>c. c \<noteq> CHR ''#'') rest of
           [] \<Rightarrow> None
         | _ # frag \<Rightarrow> Some (percent_encode fragment_set frag))\<rparr>"

fun path_state :: "string \<Rightarrow> string \<Rightarrow> string list \<Rightarrow> url" where
  "path_state [] buffer path =
     \<lparr>url_path = end_segment buffer False path, url_query = None, url_fragment = None\<rparr>"
| "path_state (c # rest) buffer path =
     (if c = CHR ''/'' \<or> c = CHR 0x5C then path_state rest [] (end_segment buffer True path)
      else if c = CHR ''?'' then query_state (end_segment buffer False path) rest
      else if c = CHR ''#'' then
        \<lparr>url_path = end_segment buffer False path, url_query = None,
         url_fragment = Some (percent_encode fragment_set rest)\<rparr>
      else path_state rest
             (buffer @ (if path_set c then percent_encode_byte c else [c])) path)"

text \<open>
  Before it parses, the constructor strips leading and trailing C0 controls and spaces and
  removes every tab and newline.
\<close>

definition c0_control_or_space :: "char \<Rightarrow> bool" where
  "c0_control_or_space c = (char_code c \<le> 32)"

definition strip :: "string \<Rightarrow> string" where
  "strip s = rev (dropWhile c0_control_or_space (rev (dropWhile c0_control_or_space s)))"

definition tab_or_newline :: "char \<Rightarrow> bool" where
  "tab_or_newline c = (c = CHR 0x09 \<or> c = CHR 0x0A \<or> c = CHR 0x0D)"

text \<open>
  \<open>new URL(input, req.url)\<close>. An input that begins with a slash followed by neither a
  slash nor a backslash keeps the request's host and enters the path state after its
  first character. Every other input (empty, relative, with a scheme, or naming an
  authority of its own by two slashes or by a slash and a backslash, where the constructor may also throw) is
  outside what is modelled and gives \<open>None\<close>.
\<close>

definition new_URL :: "string \<Rightarrow> url option" where
  "new_URL input =
     (case filter (\<lambda>c. \<not> tab_or_newline c) (strip input) of
        [] \<Rightarrow> None
      | c # rest \<Rightarrow>
          if c \<noteq> CHR ''/'' then None
          else (case rest of
                  [] \<Rightarrow> Some (path_state [] [] [])
                | d # _ \<Rightarrow>
                    if d = CHR ''/'' \<or> d = CHR 0x5C then None
                    else Some (path_state rest [] [])))"

text \<open>
  \<open>url.searchParams.set(name, value)\<close> on a URL without query: the query becomes the
  serialized pair. A URL that has a query already is outside what is modelled.
\<close>

definition searchParams_set :: "url \<Rightarrow> string \<Rightarrow> string \<Rightarrow> url option" where
  "searchParams_set u name v =
     (case url_query u of
        None \<Rightarrow> Some (u\<lparr>url_query := Some (urlencoded name @ ''='' @ urlencoded v)\<rparr>)
      | Some q \<Rightarrow> None)"

section \<open>proxy\<close>

text \<open>
  \<open>NextResponse.next()\<close> is \<open>Next\<close> (the spec's Allow);
  \<open>NextResponse.redirect(url)\<close> is \<open>Redirect url\<close>, whose target is \<open>url_pathname url\<close>
  and whose query is \<open>url_query url\<close>. \<open>NoResponse\<close> stands for a URL that the model of
  the constructor does not produce.
\<close>

datatype response = Next | Redirect url | NoResponse

definition redirect :: "url option \<Rightarrow> response" where
  "redirect r = (case r of None \<Rightarrow> NoResponse | Some u \<Rightarrow> Redirect u)"

text \<open>
  The return statements of \<open>proxy\<close>, in source order, numbered as the rules of the
  specification.
\<close>

datatype rule =
    ApiBypass
  | VerificationGate
  | WithOrganization
  | OnboardingRevisit
  | UnauthNonPublic
  | NoOrganization
  | Fallback

text \<open>
  JavaScript truthiness of a value of type \<open>string | null | undefined\<close>: absent values
  and the empty string are falsy.
\<close>

fun truthy :: "string option \<Rightarrow> bool" where
  "truthy None = False"
| "truthy (Some s) = (s \<noteq> [])"

text \<open>A \<open>string | null\<close> value inside a template literal.\<close>

fun template :: "string option \<Rightarrow> string" where
  "template None = ''null''"
| "template (Some s) = s"

text \<open>
  The rule cascade of \<open>proxy\<close> over its locals \<open>isAuthenticated\<close>,
  \<open>activeOrganizationSlug\<close> and \<open>attemptEmail\<close>. Each branch gives the return
  statement that fires and the response it returns.
\<close>

definition proxy_rules ::
    "string \<Rightarrow> bool \<Rightarrow> string option \<Rightarrow> string option \<Rightarrow> rule \<times> response" where
  "proxy_rules pathname isAuthenticated activeOrganizationSlug attemptEmail =
     (if isApiRoute pathname then (ApiBypass, Next)
      else if isSignInVerifyRoute pathname then
        (if truthy attemptEmail then (VerificationGate, Next)
         else (VerificationGate, redirect (new_URL ''/sign-in'')))
      else if isAuthenticated \<and> truthy activeOrganizationSlug then
        (if isProtectedRoute pathname then (WithOrganization, Next)
         else if isPublicRoute pathname \<and> \<not> isRootRoute pathname \<and> \<not> isAuthRoute pathname
           then (WithOrganization, Next)
         else (WithOrganization,
               redirect (new_URL (''/org/'' @ template activeOrganizationSlug @ ''/dashboard''))))
      else if isAuthenticated \<and> isOnboardingRoute pathname then (OnboardingRevisit, Next)
      else if \<not> isAuthenticated \<and> \<not> isPublicRoute pathname then
        (UnauthNonPublic,
         redirect (Option.bind (new_URL ''/sign-in'')
                     (\<lambda>signInUrl. searchParams_set signInUrl ''redirect'' pathname)))
      else if isAuthenticated \<and> \<not> truthy activeOrganizationSlug then
        (if \<not> isOnboardingRoute pathname
           then (NoOrganization, redirect (new_URL ''/onboarding''))
         else (NoOrganization, Next))
      else (Fallback, Next))"

definition decide :: "string \<Rightarrow> bool \<Rightarrow> string option \<Rightarrow> string option \<Rightarrow> response" where
  "decide pathname isAuthenticated activeOrganizationSlug attemptEmail =
     snd (proxy_rules pathname isAuthenticated activeOrganizationSlug attemptEmail)"

definition fired :: "string \<Rightarrow> bool \<Rightarrow> string option \<Rightarrow> string option \<Rightarrow> rule" where
  "fired pathname isAuthenticated activeOrganizationSlug attemptEmail =
     fst (proxy_rules pathname isAuthenticated activeOrganizationSlug attemptEmail)"

text \<open>
  The engine of the specification's open question, for comparison with \<open>decide\<close>:
  the same cascade with rule 4 (authenticated user on the onboarding path) deleted, so
  that only the else-branch of rule 6 allows the onboarding path.
\<close>

definition decide_without_rule4 ::
    "string \<Rightarrow> bool \<Rightarrow> string option \<Rightarrow> string option \<Rightarrow> response" where
  "decide_without_rule4 pathname isAuthenticated activeOrganizationSlug attemptEmail =
     (if isApiRoute pathname then Next
      else if isSignInVerifyRoute pathname then
        (if truthy attemptEmail then Next else redirect (new_URL ''/sign-in''))
      else if isAuthenticated \<and> truthy activeOrganizationSlug then
        (if isProtectedRoute pathname then Next
         else if isPublicRoute pathname \<and> \<not> isRootRoute pathname \<and> \<not> isAuthRoute pathname
           then Next
         else redirect (new_URL (''/org/'' @ template activeOrganizationSlug @ ''/dashboard'')))
      else if \<not> isAuthenticated \<and> \<not> isPublicRoute pathname then
        redirect (Option.bind (new_URL ''/sign-in'')
                    (\<lambda>signInUrl. searchParams_set signInUrl ''redirect'' pathname))
      else if isAuthenticated \<and> \<not> truthy activeOrganizationSlug then
        (if \<not> isOnboardingRoute pathname then redirect (new_URL ''/onboarding'') else Next)
      else Next)"

text \<open>
  The request as \<open>proxy\<close> reads it. \<open>getSessionFromCookie\<close> is imported from a module
  outside the source at hand, so its result is a field of the request: the session data
  may be absent, its \<open>session\<close> may be absent, and the session's
  \<open>activeOrganizationSlug\<close> may be absent. \<open>attemptCookie\<close> is
  \<open>req.cookies.get(SIGN_IN_ATTEMPT_EMAIL_COOKIE)?.value\<close>. Whatever else a request
  carries is the extension of the record, which \<open>proxy\<close> does not read.
\<close>

record session =
  activeOrganizationSlug :: "string option"

record session_data =
  session :: "session option"

record request =
  pathname :: string
  sessionFromCookie :: "session_data option"
  attemptCookie :: "string option"

definition proxy :: "'a request_scheme \<Rightarrow> response" where
  "proxy req =
     (let sessionData = sessionFromCookie req;
          sess = (case sessionData of None \<Rightarrow> None | Some d \<Rightarrow> session d);
          isAuthenticated = (sess \<noteq> None);
          slug = (case sess of None \<Rightarrow> None | Some s \<Rightarrow> activeOrganizationSlug s);
          attemptEmail = attemptCookie req
      in decide (pathname req) isAuthenticated slug attemptEmail)"

section \<open>The route classifier as the specification words it\<close>

text \<open>
  The specification describes the classifier over a two-variant pattern type: an exact
  pattern matches the equal path only; a prefix pattern, written as its base followed by
  the wildcard suffix \<open>(.*)\<close>, matches the base and every path that starts with the
  base and a slash. These definitions follow the specification's words and are compared
  with \<open>createRouteMatcher\<close> below.
\<close>

datatype RoutePattern = Exact string | PrefixOf string

definition endsWith :: "string \<Rightarrow> string \<Rightarrow> bool" where
  "endsWith s suffix =
     (length suffix \<le> length s \<and> drop (length s - length suffix) s = suffix)"

definition compile_pattern :: "string \<Rightarrow> RoutePattern" where
  "compile_pattern p =
     (if endsWith p ''(.*)'' then PrefixOf (take (length p - 4) p) else Exact p)"

fun pattern_matches :: "RoutePattern \<Rightarrow> string \<Rightarrow> bool" where
  "pattern_matches (Exact p) path = (path = p)"
| "pattern_matches (PrefixOf b) path = (path = b \<or> startsWith path (b @ ''/''))"

definition spec_matcher :: "string list \<Rightarrow> string \<Rightarrow> bool" where
  "spec_matcher patterns path = list_ex (\<lambda>p. pattern_matches (compile_pattern p) path) patterns"

text \<open>
  A pattern in which the wildcard marker occurs at most once, and then as the suffix.
\<close>

definition plain_pattern :: "string \<Rightarrow> bool" where
  "plain_pattern r =
     (if endsWith r ''(.*)'' then \<not> js_includes (take (length r - 4) r) ''(.*)''
      else \<not> js_includes r ''(.*)'')"

section \<open>Organization slugs that the URL constructor leaves as they are\<close>

text \<open>
  A character that the path state copies into a segment unchanged, and a slug that
  consists of such characters and is not a dot segment.
\<close>

definition segment_char :: "char \<Rightarrow> bool" where
  "segment_char c = (\<not> path_set c \<and> c \<noteq> CHR ''/'' \<and> c \<noteq> CHR 0x5C)"

definition plain_slug :: "string \<Rightarrow> bool" where
  "plain_slug s =
     (s \<noteq> [] \<and> list_all segment_char s \<and> \<not> single_dot s \<and> \<not> double_dot s)"

section \<open>The route categories\<close>

lemma isApiRoute_iff:
  "isApiRoute p \<longleftrightarrow> p = ''/api(.*)'' \<or> p = ''/api'' \<or> startsWith p ''/api/''"
  by (auto simp: isApiRoute_def createRouteMatcher_def routeMatches_def)

lemma isSignInVerifyRoute_iff:
  "isSignInVerifyRoute p \<longleftrightarrow> p = ''/sign-in/verify'' \<or> p = ''/sign-up/verify-email-address''"
  by (auto simp: isSignInVerifyRoute_def createRouteMatcher_def routeMatches_def)

lemma isOnboardingRoute_iff: "isOnboardingRoute p \<longleftrightarrow> p = ''/onboarding''"
  by (auto simp: isOnboardingRoute_def createRouteMatcher_def routeMatches_def)


lemma isProtectedRoute_iff:
  "isProtectedRoute p \<longleftrightarrow>
     p = ''/org(.*)'' \<or> p = ''/org'' \<or> startsWith p ''/org/'' \<or>
     p = ''/settings(.*)'' \<or> p = ''/settings'' \<or> startsWith p ''/settings/''"
  by (auto simp: isProtectedRoute_def createRouteMatcher_def routeMatches_def)

lemma isAuthRoute_iff:
  "isAuthRoute p \<longleftrightarrow>
     p = ''/sign-in(.*)'' \<or> p = ''/sign-in'' \<or> startsWith p ''/sign-in/'' \<or>
     p = ''/sign-up(.*)'' \<or> p = ''/sign-up'' \<or> startsWith p ''/sign-up/''"
  by (auto simp: isAuthRoute_def createRouteMatcher_def routeMatches_def)


lemma routeMatches_exact: "\<not> js_includes r ''(.*)'' \<Longrightarrow> routeMatches p r = (p = r)"
  by (auto simp: routeMatches_def)

lemma isPublicRoute_iff:
  "isPublicRoute p \<longleftrightarrow>
     p = ''/'' \<or> p = ''/home'' \<or> isAuthRoute p \<or> p = ''/privacy'' \<or> p = ''/terms'' \<or>
     p = ''/robots.txt'' \<or> p = ''/sitemap.xml'' \<or> p = ''/favicon.ico'' \<or>
     p = ''/favicon.svg'' \<or> p = ''/favicon-96x96.png'' \<or> p = ''/apple-touch-icon.png'' \<or>
     p = ''/opengraph-image.png''"
  unfolding isPublicRoute_def isAuthRoute_def createRouteMatcher_def
  by (simp add: routeMatches_exact)


lemma verify_not_api: "isSignInVerifyRoute p \<Longrightarrow> \<not> isApiRoute p"
  unfolding isSignInVerifyRoute_iff isApiRoute_iff
  by (elim disjE) simp_all

lemma verify_is_auth: "isSignInVerifyRoute p \<Longrightarrow> isAuthRoute p"
  unfolding isSignInVerifyRoute_iff isAuthRoute_iff
  by (elim disjE) simp_all

lemma startsWith_append: "startsWith (p @ s) p"
  by (induction p) simp_all

lemma startsWith_iff: "startsWith s p \<longleftrightarrow> (\<exists>r. s = p @ r)"
  by (induction s p rule: startsWith.induct) auto

lemma wildcard_no_border:
  assumes ne: "b \<noteq> []" and sw: "startsWith (b @ ''(.*)'') ''(.*)''"
  shows "startsWith b ''(.*)''"
proof -
  obtain c1 b1 where b: "b = c1 # b1"
    using ne by (cases b) simp_all
  show ?thesis
  proof (cases b1)
    case Nil
    with b sw show ?thesis by simp
  next
    case b1: (Cons c2 b2)
    show ?thesis
    proof (cases b2)
      case Nil
      with b b1 sw show ?thesis by simp
    next
      case b2: (Cons c3 b3)
      show ?thesis
      proof (cases b3)
        case Nil
        with b b1 b2 sw show ?thesis by simp
      next
        case (Cons c4 b4)
        with b b1 b2 sw show ?thesis by simp
      qed
    qed
  qed
qed

lemma js_includes_suffix: "js_includes (b @ w) w"
proof (induction b)
  case Nil
  show ?case using startsWith_append[of w "[]"] by (cases w) simp_all
next
  case (Cons c cs)
  then show ?case by simp
qed

lemma js_replace_suffix:
  "\<not> js_includes b ''(.*)'' \<Longrightarrow> js_replace (b @ ''(.*)'') ''(.*)'' '''' = b"
proof (induction b)
  case Nil
  show ?case by simp
next
  case (Cons c cs)
  from Cons.prems have ns: "\<not> startsWith (c # cs) ''(.*)''" and ni: "\<not> js_includes cs ''(.*)''"
    by simp_all
  have ns': "startsWith (c # (cs @ ''(.*)'')) ''(.*)'' = False"
    using wildcard_no_border[of "c # cs"] ns by auto
  have "js_replace ((c # cs) @ ''(.*)'') ''(.*)'' '''' = c # js_replace (cs @ ''(.*)'') ''(.*)'' ''''"
    by (simp only: append_Cons js_replace.simps ns' if_False)
  with Cons.IH[OF ni] show ?case by simp
qed


section \<open>The matcher against the specification\<close>

lemma endsWith_split: "endsWith r w \<Longrightarrow> r = take (length r - length w) r @ w"
  unfolding endsWith_def by (metis append_take_drop_id)

lemma routeMatches_plain:
  assumes "plain_pattern r"
  shows "routeMatches path r \<longleftrightarrow> pattern_matches (compile_pattern r) path \<or> path = r"
proof (cases "endsWith r ''(.*)''")
  case True
  define b where "b = take (length r - 4) r"
  have r: "r = b @ ''(.*)''"
    using endsWith_split[OF True] by (simp add: b_def eval_nat_numeral)
  have nb: "\<not> js_includes b ''(.*)''"
    using assms True by (simp add: plain_pattern_def b_def)
  have inc: "js_includes r ''(.*)''"
    by (subst r) (rule js_includes_suffix)
  have rep: "js_replace r ''(.*)'' '''' = b"
    by (subst r) (rule js_replace_suffix[OF nb])
  have cp: "compile_pattern r = PrefixOf b"
    using True by (simp add: compile_pattern_def b_def)
  show ?thesis
    unfolding routeMatches_def cp by (auto simp: inc rep)
next
  case False
  then have "\<not> js_includes r ''(.*)''"
    using assms by (simp add: plain_pattern_def)
  moreover have "compile_pattern r = Exact r"
    using False by (simp add: compile_pattern_def)
  ultimately show ?thesis
    by (auto simp: routeMatches_def)
qed

lemma createRouteMatcher_plain:
  "list_all plain_pattern routes \<Longrightarrow>
     createRouteMatcher routes path \<longleftrightarrow> spec_matcher routes path \<or> path \<in> set routes"
  unfolding createRouteMatcher_def spec_matcher_def
  by (induction routes) (auto simp: routeMatches_plain)

section \<open>Facts about the URL constructor\<close>

lemmas encode_set_defs =
  path_set_def query_set_def c0_control_set_def char_code_def

lemma new_URL_sign_in:
  "new_URL ''/sign-in'' = Some \<lparr>url_path = [''sign-in''], url_query = None, url_fragment = None\<rparr>"
  by code_simp

lemma new_URL_onboarding:
  "new_URL ''/onboarding'' =
     Some \<lparr>url_path = [''onboarding''], url_query = None, url_fragment = None\<rparr>"
  by code_simp

lemma urlencoded_redirect: "urlencoded ''redirect'' = ''redirect''"
  by code_simp

lemma strip_between:
  "\<not> c0_control_or_space a \<Longrightarrow> \<not> c0_control_or_space b \<Longrightarrow>
     strip (a # xs @ [b]) = a # xs @ [b]"
  by (simp add: strip_def)

lemma strip_dashboard: "strip (''/org/'' @ s @ ''/dashboard'') = ''/org/'' @ s @ ''/dashboard''"
proof -
  have "strip (CHR ''/'' # (''org/'' @ s @ ''/dashboar'') @ [CHR ''d'']) =
      CHR ''/'' # (''org/'' @ s @ ''/dashboar'') @ [CHR ''d'']"
    by (rule strip_between) (simp_all add: c0_control_or_space_def char_code_def)
  then show ?thesis by simp
qed

lemma new_URL_dashboard:
  "new_URL (''/org/'' @ s @ ''/dashboard'') =
     Some (path_state (''org/'' @ filter (\<lambda>c. \<not> tab_or_newline c) s @ ''/dashboard'') [] [])"
  unfolding new_URL_def strip_dashboard
  by (simp add: tab_or_newline_def del: path_state.simps)

lemma tab_or_newline_encoded: "tab_or_newline c \<Longrightarrow> path_set c"
  unfolding tab_or_newline_def
  by (elim disjE) (simp_all add: encode_set_defs)

lemma segment_char_kept: "segment_char c \<Longrightarrow> \<not> tab_or_newline c"
  using tab_or_newline_encoded [of c] by (auto simp: segment_char_def)

lemma segment_char_no_delimiter:
  "segment_char c \<Longrightarrow> c \<noteq> CHR ''?'' \<and> c \<noteq> CHR ''#''"
  unfolding segment_char_def path_set_def query_set_def by blast

lemma path_state_segment_char:
  "segment_char c \<Longrightarrow> path_state (c # rest) buffer path = path_state rest (buffer @ [c]) path"
  using segment_char_no_delimiter [of c] by (simp add: segment_char_def)

lemma path_state_run:
  "list_all segment_char xs \<Longrightarrow>
     path_state (xs @ rest) buffer path = path_state rest (buffer @ xs) path"
proof (induction xs arbitrary: buffer)
  case Nil
  show ?case by simp
next
  case (Cons c cs)
  then have c: "segment_char c" and cs: "list_all segment_char cs"
    by simp_all
  have "path_state ((c # cs) @ rest) buffer path = path_state (cs @ rest) (buffer @ [c]) path"
    using path_state_segment_char [OF c] by simp
  also have "\<dots> = path_state rest ((buffer @ [c]) @ cs) path"
    by (rule Cons.IH [OF cs])
  finally show ?case by simp
qed

lemma end_segment_plain:
  "\<not> single_dot buffer \<Longrightarrow> \<not> double_dot buffer \<Longrightarrow>
     end_segment buffer at_slash path = path @ [buffer]"
  by (simp add: end_segment_def)

lemma not_dot_org: "\<not> single_dot ''org'' \<and> \<not> double_dot ''org''"
  by (simp add: single_dot_def double_dot_def)

lemma not_dot_dashboard: "\<not> single_dot ''dashboard'' \<and> \<not> double_dot ''dashboard''"
  by (simp add: single_dot_def double_dot_def)

lemma segment_chars_org: "list_all segment_char ''org''"
  by (simp add: segment_char_def encode_set_defs)

lemma segment_chars_dashboard: "list_all segment_char ''dashboard''"
  by (simp add: segment_char_def encode_set_defs)

lemma path_state_slash:
  "path_state (CHR ''/'' # rest) buffer path = path_state rest [] (end_segment buffer True path)"
  by simp

lemma path_state_segment:
  assumes "list_all segment_char seg" and "\<not> single_dot seg" and "\<not> double_dot seg"
  shows "path_state (seg @ CHR ''/'' # rest) [] path = path_state rest [] (path @ [seg])"
proof -
  have "path_state (seg @ CHR ''/'' # rest) [] path = path_state (CHR ''/'' # rest) seg path"
    using path_state_run [OF assms(1), of "CHR ''/'' # rest" "[]" path] by simp
  also have "\<dots> = path_state rest [] (end_segment seg True path)"
    by (rule path_state_slash)
  finally show ?thesis
    by (simp only: end_segment_plain [OF assms(2,3)])
qed

lemma path_state_last:
  assumes "list_all segment_char seg" and "\<not> single_dot seg" and "\<not> double_dot seg"
  shows "path_state seg [] path =
           \<lparr>url_path = path @ [seg], url_query = None, url_fragment = None\<rparr>"
proof -
  have "path_state seg [] path = path_state [] seg path"
    using path_state_run [OF assms(1), of "[]" "[]" path] by simp
  then show ?thesis
    by (simp only: path_state.simps end_segment_plain [OF assms(2,3)])
qed

lemma new_URL_plain_slug:
  assumes "plain_slug s"
  shows "new_URL (''/org/'' @ s @ ''/dashboard'') =
           Some \<lparr>url_path = [''org'', s, ''dashboard''], url_query = None, url_fragment = None\<rparr>"
proof -
  have sc: "list_all segment_char s" and nd: "\<not> single_dot s" "\<not> double_dot s"
    using assms by (simp_all add: plain_slug_def)
  have keep: "filter (\<lambda>c. \<not> tab_or_newline c) s = s"
    using sc by (simp add: filter_id_conv list_all_iff segment_char_kept)
  have split: "''org/'' @ s @ ''/dashboard'' = ''org'' @ CHR ''/'' # s @ CHR ''/'' # ''dashboard''"
    by simp
  have "path_state (''org'' @ CHR ''/'' # s @ CHR ''/'' # ''dashboard'') [] [] =
      path_state (s @ CHR ''/'' # ''dashboard'') [] ([] @ [''org''])"
    using segment_chars_org not_dot_org by (intro path_state_segment) simp_all
  also have "\<dots> = path_state ''dashboard'' [] (([] @ [''org'']) @ [s])"
    using sc nd by (intro path_state_segment)
  also have "\<dots> = \<lparr>url_path = (([] @ [''org'']) @ [s]) @ [''dashboard''], url_query = None,
      url_fragment = None\<rparr>"
    using segment_chars_dashboard not_dot_dashboard by (intro path_state_last) simp_all
  finally have "path_state (''org/'' @ s @ ''/dashboard'') [] [] =
      \<lparr>url_path = [''org'', s, ''dashboard''], url_query = None, url_fragment = None\<rparr>"
    unfolding split by simp
  then show ?thesis
    by (simp only: new_URL_dashboard keep)
qed


lemma new_URL_dot_dot_slug:
  "new_URL ''/org/../dashboard'' =
     Some \<lparr>url_path = [''dashboard''], url_query = None, url_fragment = None\<rparr>"
  by code_simp

lemma new_URL_query_slug:
  "new_URL ''/org/a?b/dashboard'' =
     Some \<lparr>url_path = [''org'', ''a''], url_query = Some ''b/dashboard'', url_fragment = None\<rparr>"
  by code_simp

section \<open>Facts about the cascade shared by the properties\<close>

lemma decide_cases:
  "decide path isAuthenticated slug attemptEmail =
     (if isApiRoute path then Next
      else if isSignInVerifyRoute path then
        (if truthy attemptEmail then Next
         else Redirect \<lparr>url_path = [''sign-in''], url_query = None, url_fragment = None\<rparr>)
      else if isAuthenticated \<and> truthy slug then
        (if isProtectedRoute path then Next
         else if isPublicRoute path \<and> \<not> isRootRoute path \<and> \<not> isAuthRoute path then Next
         else redirect (new_URL (''/org/'' @ template slug @ ''/dashboard'')))
      else if isAuthenticated \<and> isOnboardingRoute path then Next
      else if \<not> isAuthenticated \<and> \<not> isPublicRoute path then
        Redirect \<lparr>url_path = [''sign-in''],
                  url_query = Some (''redirect='' @ urlencoded path), url_fragment = None\<rparr>
      else if isAuthenticated \<and> \<not> truthy slug then
        (if \<not> isOnboardingRoute path
           then Redirect \<lparr>url_path = [''onboarding''], url_query = None, url_fragment = None\<rparr>
         else Next)
      else Next)"
  unfolding decide_def proxy_rules_def new_URL_sign_in new_URL_onboarding
  by (simp add: redirect_def searchParams_set_def urlencoded_redirect)


lemma dashboard_plain:
  "plain_slug s \<Longrightarrow>
     redirect (new_URL (''/org/'' @ s @ ''/dashboard'')) =
       Redirect \<lparr>url_path = [''org'', s, ''dashboard''], url_query = None, url_fragment = None\<rparr>"
  unfolding redirect_def by (simp only: new_URL_plain_slug option.case)



lemma proxy_api: "isApiRoute (pathname req) \<Longrightarrow> proxy req = Next"
  by (simp add: proxy_def Let_def decide_cases)

lemma not_public_not_verify: "\<not> isPublicRoute p \<Longrightarrow> \<not> isSignInVerifyRoute p"
  using verify_is_auth [of p] by (auto simp: isPublicRoute_iff)

lemma dashboard_protected: "isProtectedRoute (''/org/'' @ s @ ''/dashboard'')"
  by (simp add: isProtectedRoute_iff)



lemma unauthenticated_redirect:
  assumes "\<not> isPublicRoute path" and "\<not> isApiRoute path"
  shows "decide path False slug attemptEmail =
           Redirect \<lparr>url_path = [''sign-in''],
                     url_query = Some (''redirect='' @ urlencoded path), url_fragment = None\<rparr> \<and>
         fired path False slug attemptEmail = UnauthNonPublic"
  using assms not_public_not_verify [of path]
  by (simp add: decide_cases fired_def proxy_rules_def)

lemma no_self_redirect_plain_slug:
  assumes plain: "isAuthenticated \<and> truthy slug \<longrightarrow> plain_slug (template slug)"
    and red: "decide path isAuthenticated slug attemptEmail = Redirect u"
  shows "url_pathname u \<noteq> path"
proof -
  have pub: "isPublicRoute ''/sign-in''"
    by (simp add: isPublicRoute_iff isAuthRoute_iff)
  have nv: "\<not> isSignInVerifyRoute ''/sign-in''"
    by (simp add: isSignInVerifyRoute_iff)
  have dash: "redirect (new_URL (''/org/'' @ template slug @ ''/dashboard'')) =
      Redirect \<lparr>url_path = [''org'', template slug, ''dashboard''], url_query = None,
                 url_fragment = None\<rparr>" if "isAuthenticated" "truthy slug"
    using plain that by (simp only: dashboard_plain)
  consider
      (verify) "url_pathname u = ''/sign-in''" "isSignInVerifyRoute path"
    | (unauth) "url_pathname u = ''/sign-in''" "\<not> isPublicRoute path"
    | (onboard) "url_pathname u = ''/onboarding''" "\<not> isOnboardingRoute path"
    | (dashboard) "url_pathname u = ''/org/'' @ template slug @ ''/dashboard''"
        "\<not> isProtectedRoute path"
  proof (cases "isAuthenticated \<and> truthy slug \<and> \<not> isApiRoute path \<and>
      \<not> isSignInVerifyRoute path")
    case True
    then have "decide path isAuthenticated slug attemptEmail =
        (if isProtectedRoute path then Next
         else if isPublicRoute path \<and> \<not> isRootRoute path \<and> \<not> isAuthRoute path then Next
         else Redirect \<lparr>url_path = [''org'', template slug, ''dashboard''], url_query = None,
                         url_fragment = None\<rparr>)"
      unfolding decide_cases using dash by simp
    with red have "u = \<lparr>url_path = [''org'', template slug, ''dashboard''], url_query = None,
        url_fragment = None\<rparr>" and "\<not> isProtectedRoute path"
      by (auto split: if_splits)
    then show ?thesis
      using dashboard by (simp add: url_pathname_def)
  next
    case False
    then have "decide path isAuthenticated slug attemptEmail =
        (if isApiRoute path then Next
         else if isSignInVerifyRoute path then
           (if truthy attemptEmail then Next
            else Redirect \<lparr>url_path = [''sign-in''], url_query = None, url_fragment = None\<rparr>)
         else if isAuthenticated \<and> isOnboardingRoute path then Next
         else if \<not> isAuthenticated \<and> \<not> isPublicRoute path then
           Redirect \<lparr>url_path = [''sign-in''],
                     url_query = Some (''redirect='' @ urlencoded path), url_fragment = None\<rparr>
         else if isAuthenticated \<and> \<not> truthy slug then
           (if \<not> isOnboardingRoute path
              then Redirect \<lparr>url_path = [''onboarding''], url_query = None, url_fragment = None\<rparr>
            else Next)
         else Next)"
      unfolding decide_cases by auto
    with red show ?thesis
      using verify unauth onboard by (auto simp: url_pathname_def split: if_splits)
  qed
  then show ?thesis
  proof cases
    case verify
    then show ?thesis using nv by auto
  next
    case unauth
    then show ?thesis using pub by auto
  next
    case onboard
    then show ?thesis by (auto simp: isOnboardingRoute_iff)
  next
    case dashboard
    then show ?thesis using dashboard_protected [of "template slug"] by auto
  qed
qed

section \<open>Properties of the decision\<close>

text \<open>
  C1. On every path of the api category, in particular on \<open>/api\<close> and on every path
  that begins with \<open>/api/\<close>, the decision is Allow (\<open>Next\<close>), for every authentication
  state, organization slug and attempt marker; the API bypass is the rule that decides,
  and \<open>proxy\<close> returns before it looks at the session.
\<close>

theorem api_immunity:
  "(isApiRoute path \<longrightarrow>
      decide path isAuthenticated slug attemptEmail = Next \<and>
      fired path isAuthenticated slug attemptEmail = ApiBypass) \<and>
   (path = ''/api'' \<or> startsWith path ''/api/'' \<longrightarrow>
      isApiRoute path \<and> decide path isAuthenticated slug attemptEmail = Next) \<and>
   (isApiRoute (pathname req) \<longrightarrow> proxy req = Next)"
  using proxy_api [of req]
  by (simp add: decide_cases fired_def proxy_rules_def isApiRoute_iff)

text \<open>
  The scenario of the specification: an unauthenticated request to
  \<open>/api/trpc/user.list\<close> is allowed, and so is \<open>/api\<close> for a signed-in user.
\<close>

theorem api_immunity_witness:
  "isApiRoute ''/api/trpc/user.list'' \<and>
   decide ''/api/trpc/user.list'' False None None = Next \<and>
   fired ''/api/trpc/user.list'' False None None = ApiBypass \<and>
   decide ''/api'' True (Some ''test-org'') (Some ''a@b.c'') = Next \<and>
   proxy \<lparr>pathname = ''/api/user'', sessionFromCookie = None, attemptCookie = None\<rparr> = Next"
  using api_immunity [of "''/api/trpc/user.list''" False None None
          "\<lparr>pathname = ''/api/user'', sessionFromCookie = None, attemptCookie = None\<rparr>"]
        api_immunity [of "''/api''" True "Some ''test-org''" "Some ''a@b.c''"
          "\<lparr>pathname = ''/api/user'', sessionFromCookie = None, attemptCookie = None\<rparr>"]
  by (simp add: isApiRoute_iff)

text \<open>
  C2 as stated fails: the gate tests the cookie value for truthiness, so an attempt
  marker that is present but empty is treated as absent, and the request is redirected.
\<close>

theorem verification_gate_empty_marker:
  "isSignInVerifyRoute ''/sign-in/verify'' \<and> Some '''' \<noteq> (None :: string option) \<and>
   decide ''/sign-in/verify'' False None (Some '''') =
     Redirect \<lparr>url_path = [''sign-in''], url_query = None, url_fragment = None\<rparr>"
  by (simp add: decide_cases isSignInVerifyRoute_iff isApiRoute_iff)

text \<open>
  C2, amended. On a path of the signInVerify category (\<open>/sign-in/verify\<close> or
  \<open>/sign-up/verify-email-address\<close>) the verification gate decides, for every session
  state: Allow when the attempt marker is present and not empty, Redirect to
  \<open>/sign-in\<close> with no query when it is absent or empty.
\<close>

theorem verification_gate:
  assumes "isSignInVerifyRoute path"
  shows "(path = ''/sign-in/verify'' \<or> path = ''/sign-up/verify-email-address'') \<and>
         fired path isAuthenticated slug attemptEmail = VerificationGate \<and>
         (\<forall>e. attemptEmail = Some e \<and> e \<noteq> [] \<longrightarrow>
            decide path isAuthenticated slug attemptEmail = Next) \<and>
         (attemptEmail = None \<or> attemptEmail = Some [] \<longrightarrow>
            decide path isAuthenticated slug attemptEmail =
              Redirect \<lparr>url_path = [''sign-in''], url_query = None, url_fragment = None\<rparr>) \<and>
         url_pathname \<lparr>url_path = [''sign-in''], url_query = None, url_fragment = None\<rparr> =
           ''/sign-in''"
proof -
  have na: "\<not> isApiRoute path"
    using assms by (rule verify_not_api)
  have "path = ''/sign-in/verify'' \<or> path = ''/sign-up/verify-email-address''"
    using assms by (simp add: isSignInVerifyRoute_iff)
  moreover have "fired path isAuthenticated slug attemptEmail = VerificationGate"
    using assms na by (simp add: fired_def proxy_rules_def)
  moreover have "decide path isAuthenticated slug attemptEmail =
      (if truthy attemptEmail then Next
       else Redirect \<lparr>url_path = [''sign-in''], url_query = None, url_fragment = None\<rparr>)"
    using assms na by (simp add: decide_cases)
  moreover have "url_pathname \<lparr>url_path = [''sign-in''], url_query = None, url_fragment = None\<rparr> =
      ''/sign-in''"
    by (simp add: url_pathname_def)
  ultimately show ?thesis
    by auto
qed

text \<open>
  The gate on \<open>/sign-up/verify-email-address\<close> for a user who is signed in and has an
  organization: the decision depends on the marker only.
\<close>

theorem verification_gate_witness:
  "isSignInVerifyRoute ''/sign-up/verify-email-address'' \<and>
   decide ''/sign-up/verify-email-address'' True (Some ''test-org'') (Some ''test@example.com'') =
     Next \<and>
   decide ''/sign-up/verify-email-address'' True (Some ''test-org'') None =
     Redirect \<lparr>url_path = [''sign-in''], url_query = None, url_fragment = None\<rparr>"
proof -
  have v: "isSignInVerifyRoute ''/sign-up/verify-email-address''"
    by (simp add: isSignInVerifyRoute_iff)
  show ?thesis
    using v verification_gate [OF v, of True "Some ''test-org''" "Some ''test@example.com''"]
          verification_gate [OF v, of True "Some ''test-org''" None]
    by simp
qed




text \<open>
  C4 says that no rule but the one for unauthenticated requests to non-public paths
  produces a redirect with a query. \<open>proxy\<close> breaks this: rule 3 puts the slug into the
  redirect URL unescaped, so for an authenticated session with the slug \<open>a?b\<close> the
  request to \<open>/foo\<close> is redirected to \<open>/org/a\<close> with the query \<open>b/dashboard\<close>. (The
  first half of C4 holds: lemma \<open>unauthenticated_redirect\<close>.)
\<close>

theorem dashboard_redirect_with_query:
  "\<not> isPublicRoute ''/foo'' \<and>
   fired ''/foo'' True (Some ''a?b'') None = WithOrganization \<and>
   decide ''/foo'' True (Some ''a?b'') None =
     Redirect \<lparr>url_path = [''org'', ''a''], url_query = Some ''b/dashboard'',
                url_fragment = None\<rparr>"
  by (simp add: decide_cases fired_def proxy_rules_def isApiRoute_iff isSignInVerifyRoute_iff
      isProtectedRoute_iff isPublicRoute_iff isAuthRoute_iff new_URL_query_slug redirect_def)

text \<open>
  C5. For an authenticated session without organization slug, on a path outside api and
  signInVerify: the onboarding path (exactly \<open>/onboarding\<close>) is allowed, every other
  path, public ones such as \<open>/terms\<close> and \<open>/sign-in\<close> included, redirects to
  \<open>/onboarding\<close> with no query; so \<open>/onboarding\<close> never redirects to itself.
\<close>

theorem authenticated_no_organization:
  "(\<not> isApiRoute path \<and> \<not> isSignInVerifyRoute path \<longrightarrow>
      decide path True None attemptEmail =
        (if isOnboardingRoute path then Next
         else Redirect \<lparr>url_path = [''onboarding''], url_query = None, url_fragment = None\<rparr>)) \<and>
   url_pathname \<lparr>url_path = [''onboarding''], url_query = None, url_fragment = None\<rparr> =
     ''/onboarding'' \<and>
   (isOnboardingRoute path \<longleftrightarrow> path = ''/onboarding'') \<and>
   decide ''/onboarding'' True None attemptEmail = Next \<and>
   decide ''/terms'' True None attemptEmail =
     Redirect \<lparr>url_path = [''onboarding''], url_query = None, url_fragment = None\<rparr> \<and>
   decide ''/sign-in'' True None attemptEmail =
     Redirect \<lparr>url_path = [''onboarding''], url_query = None, url_fragment = None\<rparr>"
proof -
  let ?onb = "\<lparr>url_path = [''onboarding''], url_query = None, url_fragment = None\<rparr>"
  have gen: "\<not> isApiRoute p \<Longrightarrow> \<not> isSignInVerifyRoute p \<Longrightarrow>
      decide p True None attemptEmail =
        (if isOnboardingRoute p then Next else Redirect ?onb)" for p
    by (simp add: decide_cases)
  have name: "url_pathname ?onb = ''/onboarding''"
    by (simp add: url_pathname_def)
  have onb: "decide ''/onboarding'' True None attemptEmail = Next"
    using gen [of "''/onboarding''"]
    by (simp add: isApiRoute_iff isSignInVerifyRoute_iff isOnboardingRoute_iff)
  have terms: "decide ''/terms'' True None attemptEmail = Redirect ?onb"
    using gen [of "''/terms''"]
    by (simp add: isApiRoute_iff isSignInVerifyRoute_iff isOnboardingRoute_iff)
  have signin: "decide ''/sign-in'' True None attemptEmail = Redirect ?onb"
    using gen [of "''/sign-in''"]
    by (simp add: isApiRoute_iff isSignInVerifyRoute_iff isOnboardingRoute_iff)
  show ?thesis
    using gen [of path] name onb terms signin by (simp add: isOnboardingRoute_iff)
qed

text \<open>
  The scenarios of the specification: authenticated without organization on
  \<open>/settings\<close> and on \<open>/onboarding\<close>.
\<close>

theorem authenticated_no_organization_witness:
  "\<not> isApiRoute ''/settings'' \<and> \<not> isSignInVerifyRoute ''/settings'' \<and>
   decide ''/settings'' True None None =
     Redirect \<lparr>url_path = [''onboarding''], url_query = None, url_fragment = None\<rparr> \<and>
   decide ''/onboarding'' True None None = Next"
  using authenticated_no_organization [of "''/settings''" None]
  by (simp add: isApiRoute_iff isSignInVerifyRoute_iff isOnboardingRoute_iff)

text \<open>
  C6 as stated fails: the matcher compares every route with the path literally before it
  looks for the wildcard, so a prefix pattern also matches the path that spells the
  pattern itself, which is neither the base nor below it.
\<close>

theorem wildcard_pattern_matches_itself:
  "compile_pattern ''/sign-in(.*)'' = PrefixOf ''/sign-in'' \<and>
   createRouteMatcher [''/sign-in(.*)''] ''/sign-in(.*)'' \<and>
   \<not> (''/sign-in(.*)'' = ''/sign-in'' \<or> startsWith ''/sign-in(.*)'' (''/sign-in'' @ ''/'')) \<and>
   \<not> spec_matcher [''/sign-in(.*)''] ''/sign-in(.*)''"
  by (simp add: compile_pattern_def endsWith_def createRouteMatcher_def routeMatches_def
      spec_matcher_def)

text \<open>
  C6, amended. A matcher built from a list returns true iff some route of the list
  matches. For a list of patterns in which the wildcard occurs only as the suffix, it
  returns true iff the specification's matcher does or the path equals one of the pattern
  strings literally: a pattern \<open>p\<close> without wildcard matches iff \<open>path = p\<close>, and a pattern
  \<open>b(.*)\<close> with a wildcard-free base \<open>b\<close> matches iff \<open>path = b\<close>, or \<open>path\<close> starts
  with \<open>b/\<close>, or \<open>path\<close> is the pattern string \<open>b(.*)\<close> itself. So \<open>/sign-in-extra\<close>
  does not match the \<open>/sign-in\<close> prefix pattern, while \<open>/sign-in\<close> and
  \<open>/sign-in/verify\<close> do.
\<close>

theorem createRouteMatcher_spec:
  "(createRouteMatcher routes path \<longleftrightarrow> (\<exists>r \<in> set routes. routeMatches path r)) \<and>
   (list_all plain_pattern routes \<longrightarrow>
      (createRouteMatcher routes path \<longleftrightarrow> spec_matcher routes path \<or> path \<in> set routes)) \<and>
   (\<not> js_includes p ''(.*)'' \<longrightarrow> (routeMatches path p \<longleftrightarrow> path = p)) \<and>
   (\<not> js_includes b ''(.*)'' \<longrightarrow>
      (routeMatches path (b @ ''(.*)'') \<longleftrightarrow>
         path = b \<or> startsWith path (b @ ''/'') \<or> path = b @ ''(.*)'')) \<and>
   \<not> createRouteMatcher [''/sign-in(.*)''] ''/sign-in-extra'' \<and>
   createRouteMatcher [''/sign-in(.*)''] ''/sign-in'' \<and>
   createRouteMatcher [''/sign-in(.*)''] ''/sign-in/verify''"
proof -
  have some: "createRouteMatcher routes path \<longleftrightarrow> (\<exists>r \<in> set routes. routeMatches path r)"
    by (simp add: createRouteMatcher_def list_ex_iff)
  have spec: "list_all plain_pattern routes \<longrightarrow>
      (createRouteMatcher routes path \<longleftrightarrow> spec_matcher routes path \<or> path \<in> set routes)"
    using createRouteMatcher_plain by blast
  have exact: "\<not> js_includes p ''(.*)'' \<longrightarrow> (routeMatches path p \<longleftrightarrow> path = p)"
    by (simp add: routeMatches_exact)
  have pre: "\<not> js_includes b ''(.*)'' \<longrightarrow>
      (routeMatches path (b @ ''(.*)'') \<longleftrightarrow>
         path = b \<or> startsWith path (b @ ''/'') \<or> path = b @ ''(.*)'')"
    by (auto simp: routeMatches_def js_includes_suffix js_replace_suffix)
  have ex: "\<not> createRouteMatcher [''/sign-in(.*)''] ''/sign-in-extra'' \<and>
      createRouteMatcher [''/sign-in(.*)''] ''/sign-in'' \<and>
      createRouteMatcher [''/sign-in(.*)''] ''/sign-in/verify''"
    by (simp add: createRouteMatcher_def routeMatches_def)
  from some spec exact pre ex show ?thesis by blast
qed

text \<open>
  The protected category on \<open>/settings/billing\<close>, an exact pattern and a prefix
  pattern.
\<close>

theorem createRouteMatcher_spec_witness:
  "list_all plain_pattern [''/org(.*)'', ''/settings(.*)''] \<and>
   createRouteMatcher [''/org(.*)'', ''/settings(.*)''] ''/settings/billing'' \<and>
   spec_matcher [''/org(.*)'', ''/settings(.*)''] ''/settings/billing'' \<and>
   \<not> js_includes ''/terms'' ''(.*)'' \<and> routeMatches ''/terms'' ''/terms'' \<and>
   \<not> js_includes ''/api'' ''(.*)'' \<and> routeMatches ''/api/user'' ''/api(.*)''"
  using createRouteMatcher_spec [of "[''/org(.*)'', ''/settings(.*)'']" "''/settings/billing''"
          "''/terms''" "''/api''"]
        createRouteMatcher_spec [of "[''/org(.*)'', ''/settings(.*)'']" "''/terms''"
          "''/terms''" "''/api''"]
        createRouteMatcher_spec [of "[''/org(.*)'', ''/settings(.*)'']" "''/api/user''"
          "''/terms''" "''/api''"]
  by (simp add: plain_pattern_def endsWith_def spec_matcher_def compile_pattern_def
      createRouteMatcher_def routeMatches_def)

text \<open>
  C7 as stated fails in its first half: rule 3 tests the slug for truthiness, so it does
  not decide an authenticated session whose slug is the empty string, and rule 4 fires
  for such a session on \<open>/onboarding\<close>.
\<close>

theorem rule4_fires_with_empty_slug:
  "Some '''' \<noteq> (None :: string option) \<and>
   fired ''/onboarding'' True (Some '''') None = OnboardingRevisit"
  by (simp add: fired_def proxy_rules_def isApiRoute_iff isSignInVerifyRoute_iff
      isOnboardingRoute_iff)

text \<open>
  C7, amended. The engine with rule 4 deleted is equal to \<open>decide\<close> on every input.
  Rule 4 fires only for an authenticated session on the onboarding path whose slug is
  absent or empty, and rule 3 decides every authenticated session with a non-empty slug
  outside api and signInVerify.
\<close>

theorem rule4_redundant:
  "decide_without_rule4 path isAuthenticated slug attemptEmail =
     decide path isAuthenticated slug attemptEmail \<and>
   (fired path isAuthenticated slug attemptEmail = OnboardingRevisit \<longrightarrow>
      isAuthenticated \<and> isOnboardingRoute path \<and> (slug = None \<or> slug = Some [])) \<and>
   (isAuthenticated \<and> (\<exists>s. slug = Some s \<and> s \<noteq> []) \<and>
    \<not> isApiRoute path \<and> \<not> isSignInVerifyRoute path \<longrightarrow>
      fired path isAuthenticated slug attemptEmail = WithOrganization)"
proof -
  have eq: "decide_without_rule4 path isAuthenticated slug attemptEmail =
      decide path isAuthenticated slug attemptEmail"
    by (simp add: decide_without_rule4_def decide_def proxy_rules_def)
  have reach: "fired path isAuthenticated slug attemptEmail = OnboardingRevisit \<longrightarrow>
      isAuthenticated \<and> isOnboardingRoute path \<and> (slug = None \<or> slug = Some [])"
    by (cases slug) (auto simp: fired_def proxy_rules_def split: if_splits)
  have r3: "isAuthenticated \<and> (\<exists>s. slug = Some s \<and> s \<noteq> []) \<and>
      \<not> isApiRoute path \<and> \<not> isSignInVerifyRoute path \<longrightarrow>
      fired path isAuthenticated slug attemptEmail = WithOrganization"
    by (auto simp: fired_def proxy_rules_def)
  from eq reach r3 show ?thesis by blast
qed

text \<open>
  Rule 4 does fire: authenticated without organization on \<open>/onboarding\<close>.
\<close>

theorem rule4_redundant_witness:
  "fired ''/onboarding'' True None None = OnboardingRevisit \<and>
   decide_without_rule4 ''/onboarding'' True None None = decide ''/onboarding'' True None None \<and>
   decide ''/onboarding'' True None None = Next \<and>
   fired ''/onboarding'' True (Some ''test-org'') None = WithOrganization"
  using rule4_redundant [of "''/onboarding''" True None None]
        rule4_redundant [of "''/onboarding''" True "Some ''test-org''" None]
  by (simp add: fired_def decide_def proxy_rules_def isApiRoute_iff isSignInVerifyRoute_iff
      isOnboardingRoute_iff)

text \<open>
  C8. For an unauthenticated session the decision does not depend on the organization
  slug: with the same path and attempt marker, slug \<open>None\<close> and slug \<open>Some s\<close> give the
  same decision through the same rule, and none of the organization rules fires.
\<close>

theorem unauthenticated_ignores_slug:
  "decide path False None attemptEmail = decide path False (Some s) attemptEmail \<and>
   fired path False None attemptEmail = fired path False (Some s) attemptEmail \<and>
   fired path False slug attemptEmail \<noteq> WithOrganization \<and>
   fired path False slug attemptEmail \<noteq> OnboardingRevisit \<and>
   fired path False slug attemptEmail \<noteq> NoOrganization"
  by (simp add: decide_def fired_def proxy_rules_def)



text \<open>
  C10 says that a redirect never targets the requested path. \<open>proxy\<close> breaks this:
  rule 3 puts the slug into the redirect URL unescaped, so for an authenticated session
  with the slug \<open>..\<close> the request to \<open>/dashboard\<close>, which is not protected, is
  redirected to \<open>/org/../dashboard\<close>, that is to \<open>/dashboard\<close> itself. (For slugs that
  the URL constructor leaves as they are the property holds: lemma
  \<open>no_self_redirect_plain_slug\<close>.)
\<close>

theorem dashboard_redirect_to_requested_path:
  "fired ''/dashboard'' True (Some ''..'') None = WithOrganization \<and>
   decide ''/dashboard'' True (Some ''..'') None =
     Redirect \<lparr>url_path = [''dashboard''], url_query = None, url_fragment = None\<rparr> \<and>
   url_pathname \<lparr>url_path = [''dashboard''], url_query = None, url_fragment = None\<rparr> =
     ''/dashboard''"
  by (simp add: decide_cases fired_def proxy_rules_def isApiRoute_iff isSignInVerifyRoute_iff
      isProtectedRoute_iff isPublicRoute_iff isAuthRoute_iff new_URL_dot_dot_slug redirect_def
      url_pathname_def)

end
